theory Spec2Isabelle
  imports Main "HOL-Library.Word"
begin

text \<open>
  The history store of jyugemu (\<^verbatim>\<open>FileManager\<close>), its query layer (\<^verbatim>\<open>HistoryManager\<close>)
  and the capture of a command (\<^verbatim>\<open>SessionManager.captureCommand\<close>), as functions on an
  explicit file system. What Node.js provides (the calls of \<^verbatim>\<open>fs\<close>, \<^verbatim>\<open>JSON.stringify\<close>
  and \<^verbatim>\<open>JSON.parse\<close>, the clock) is a parameter of the functions.
\<close>

section \<open>JavaScript values\<close>

text \<open>
  A JavaScript string is a sequence of UTF-16 code units; \<open>length\<close> counts code
  units, as \<^verbatim>\<open>String.prototype.length\<close> does. String literals of the source are
  written \<open>lit ''...''\<close>.
\<close>

type_synonym code_unit = "16 word"
type_synonym js_string = "code_unit list"

definition lit :: "string \<Rightarrow> js_string" where
  "lit s = map of_char s"

text \<open>
  The values of JavaScript that the code handles: those that \<^verbatim>\<open>JSON.parse\<close> can return,
  \<^verbatim>\<open>undefined\<close>, which a property read returns for an absent key, and the numbers that
  are not finite. A finite number is an integer here (exit codes, limits); the other
  finite doubles are outside the model. An object is the list of its own properties in
  insertion order.
\<close>

datatype nonfinite = NaN | PosInfinity | NegInfinity

datatype js =
    JUndefined
  | JNull
  | JBool bool
  | JNum int
  | JNonFinite nonfinite
  | JStr js_string
  | JArr "js list"
  | JObj "(js_string \<times> js) list"

text \<open>The exceptions the store and the session capture raise, by their origin.\<close>

datatype error =
    AlreadyExists       \<comment> \<open>\<^verbatim>\<open>History file already exists at ... Use --force to overwrite.\<close>\<close>
  | BackupError         \<comment> \<open>\<^verbatim>\<open>Failed to backup corrupted file: ...\<close>\<close>
  | WriteError          \<comment> \<open>\<^verbatim>\<open>Failed to write history file: ...\<close>\<close>
  | ReadError           \<comment> \<open>\<^verbatim>\<open>Failed to read history file: ...\<close>\<close>
  | LockTimeout         \<comment> \<open>\<^verbatim>\<open>Failed to acquire lock: timeout\<close>\<close>
  | LockCreateError     \<comment> \<open>\<^verbatim>\<open>Failed to create lock file: ...\<close>\<close>
  | FsError             \<comment> \<open>an exception of a \<^verbatim>\<open>fs.*Sync\<close> call, not wrapped\<close>
  | SyntaxError         \<comment> \<open>thrown by \<^verbatim>\<open>JSON.parse\<close>, not wrapped\<close>
  | TypeError           \<comment> \<open>a property read on null or undefined, or a call of a non-function\<close>
  | MissingField js_string  \<comment> \<open>\<^verbatim>\<open>CommandRecord missing required field: ...\<close>\<close>
  | InvalidTimestamp    \<comment> \<open>\<^verbatim>\<open>Invalid timestamp format: ...\<close>\<close>
  | ExitCodeNotNumber   \<comment> \<open>\<^verbatim>\<open>Exit code must be a number, got ...\<close>\<close>

text \<open>
  A property read \<^verbatim>\<open>v[k]\<close>, for a key \<open>k\<close> that is not a built-in property (as
  \<^verbatim>\<open>history\<close> and the field names of a record are not): it throws on \<^verbatim>\<open>null\<close> and
  \<^verbatim>\<open>undefined\<close>; an object gives the property or \<^verbatim>\<open>undefined\<close>; numbers, booleans,
  strings and arrays have no such property.
\<close>

fun get_prop :: "js \<Rightarrow> js_string \<Rightarrow> error + js" where
  "get_prop JUndefined k = Inl TypeError"
| "get_prop JNull k = Inl TypeError"
| "get_prop (JObj kvs) k = Inr (case map_of kvs k of None \<Rightarrow> JUndefined | Some v \<Rightarrow> v)"
| "get_prop v k = Inr JUndefined"

definition get_history :: "js \<Rightarrow> error + js" where
  "get_history v = get_prop v (lit ''history'')"

text \<open>Assignment to an own property keeps the position of an existing key.\<close>

fun put_prop :: "js_string \<Rightarrow> js \<Rightarrow> (js_string \<times> js) list \<Rightarrow> (js_string \<times> js) list" where
  "put_prop k v [] = [(k, v)]"
| "put_prop k v (p # ps) = (if fst p = k then (k, v) # ps else p # put_prop k v ps)"

text \<open>
  \<^verbatim>\<open>historyFile.history.push(record)\<close>: only an array has a callable \<^verbatim>\<open>push\<close>; the
  array is extended in place, so the document holds the longer array afterwards.
\<close>

definition push_history :: "js \<Rightarrow> js \<Rightarrow> error + js" where
  "push_history v r =
     (case get_history v of
        Inl e \<Rightarrow> Inl e
      | Inr h \<Rightarrow>
          (case (v, h) of
             (JObj kvs, JArr xs) \<Rightarrow> Inr (JObj (put_prop (lit ''history'') (JArr (xs @ [r])) kvs))
           | _ \<Rightarrow> Inl TypeError))"

text \<open>
  \<^verbatim>\<open>slice(start)\<close> of arrays and strings: a negative start counts from the end and is
  clamped at 0, a start beyond the length is clamped at the length.
\<close>

definition slice_from :: "int \<Rightarrow> 'a list \<Rightarrow> 'a list" where
  "slice_from start xs =
     (let len = int (length xs);
          k = (if start < 0 then max (len + start) 0 else min start len)
      in drop (nat k) xs)"

text \<open>\<^verbatim>\<open>historyFile.history.slice(-limit)\<close>: arrays and strings have \<^verbatim>\<open>slice\<close>.\<close>

fun slice_history :: "js \<Rightarrow> int \<Rightarrow> error + js" where
  "slice_history (JArr xs) start = Inr (JArr (slice_from start xs))"
| "slice_history (JStr s) start = Inr (JStr (slice_from start s))"
| "slice_history _ start = Inl TypeError"

text \<open>The document \<^verbatim>\<open>{ history: [...] }\<close>.\<close>

definition history_doc :: "js list \<Rightarrow> js" where
  "history_doc xs = JObj [(lit ''history'', JArr xs)]"

text \<open>
  What \<^verbatim>\<open>JSON.parse(JSON.stringify(v))\<close> is, for a value \<open>v\<close> that is not \<^verbatim>\<open>undefined\<close>
  itself: \<^verbatim>\<open>JSON.stringify\<close> writes \<^verbatim>\<open>null\<close> for a number that is not finite and for an
  \<^verbatim>\<open>undefined\<close> element of an array, and leaves out a property whose value is
  \<^verbatim>\<open>undefined\<close>; everything else comes back as it was.
\<close>

fun jsonify :: "js \<Rightarrow> js"
  and jsonify_elements :: "js list \<Rightarrow> js list"
  and jsonify_properties :: "(js_string \<times> js) list \<Rightarrow> (js_string \<times> js) list" where
  "jsonify JUndefined = JNull"
| "jsonify JNull = JNull"
| "jsonify (JBool b) = JBool b"
| "jsonify (JNum n) = JNum n"
| "jsonify (JNonFinite x) = JNull"
| "jsonify (JStr s) = JStr s"
| "jsonify (JArr xs) = JArr (jsonify_elements xs)"
| "jsonify (JObj kvs) = JObj (jsonify_properties kvs)"
| "jsonify_elements [] = []"
| "jsonify_elements (x # xs) = jsonify x # jsonify_elements xs"
| "jsonify_properties [] = []"
| "jsonify_properties ((k, v) # kvs) =
     (if v = JUndefined then jsonify_properties kvs else (k, jsonify v) # jsonify_properties kvs)"

section \<open>The platform: file system and JSON codec\<close>

type_synonym path = js_string

datatype fs_op =
    Read path
  | Write path
  | Rename path path
  | Unlink path
  | Copy path path

text \<open>
  What the code takes from Node.js. The contents of files are of a type \<open>'c\<close> that the
  store never inspects but through \<^verbatim>\<open>JSON.parse\<close>.
  \<^item> \<open>stringify\<close> is \<^verbatim>\<open>JSON.stringify(_, null, 2)\<close> written as UTF-8;
  \<^item> \<open>parse\<close> is \<^verbatim>\<open>JSON.parse\<close> of a file read as UTF-8, \<open>None\<close> when it throws;
  \<^item> \<open>faulty\<close> says which calls of \<^verbatim>\<open>fs\<close> fail for a reason outside the model
    (permissions, a full disk); a failed call leaves the files as they were;
  \<^item> \<open>pid\<close> is \<^verbatim>\<open>process.pid.toString()\<close>, the content of the lock file.
\<close>

record 'c platform =
  stringify :: "js \<Rightarrow> 'c"
  parse :: "'c \<Rightarrow> js option"
  faulty :: "fs_op \<Rightarrow> bool"
  pid :: 'c

type_synonym 'c files = "path \<rightharpoonup> 'c"

definition existsSync :: "'c files \<Rightarrow> path \<Rightarrow> bool" where
  "existsSync fs p = (fs p \<noteq> None)"

definition readFileSync :: "'c platform \<Rightarrow> 'c files \<Rightarrow> path \<Rightarrow> error + 'c" where
  "readFileSync P fs p =
     (if faulty P (Read p) then Inl FsError
      else case fs p of None \<Rightarrow> Inl FsError | Some c \<Rightarrow> Inr c)"

definition writeFileSync :: "'c platform \<Rightarrow> 'c files \<Rightarrow> path \<Rightarrow> 'c \<Rightarrow> error + 'c files" where
  "writeFileSync P fs p c =
     (if faulty P (Write p) then Inl FsError else Inr (fs(p \<mapsto> c)))"

definition renameSync :: "'c platform \<Rightarrow> 'c files \<Rightarrow> path \<Rightarrow> path \<Rightarrow> error + 'c files" where
  "renameSync P fs old new =
     (if faulty P (Rename old new) then Inl FsError
      else case fs old of
             None \<Rightarrow> Inl FsError
           | Some c \<Rightarrow> Inr ((fs(old := None))(new \<mapsto> c)))"

definition unlinkSync :: "'c platform \<Rightarrow> 'c files \<Rightarrow> path \<Rightarrow> error + 'c files" where
  "unlinkSync P fs p =
     (if faulty P (Unlink p) then Inl FsError
      else case fs p of None \<Rightarrow> Inl FsError | Some c \<Rightarrow> Inr (fs(p := None)))"

definition copyFileSync :: "'c platform \<Rightarrow> 'c files \<Rightarrow> path \<Rightarrow> path \<Rightarrow> error + 'c files" where
  "copyFileSync P fs src dest =
     (if faulty P (Copy src dest) then Inl FsError
      else case fs src of None \<Rightarrow> Inl FsError | Some c \<Rightarrow> Inr (fs(dest \<mapsto> c)))"

section \<open>FileManager\<close>

text \<open>
  A \<^verbatim>\<open>FileManager\<close> is its \<^verbatim>\<open>historyFilePath\<close>; every method takes the platform, the
  path and the files, and returns its result (\<open>Inl\<close> the exception thrown) with the files
  it leaves.
\<close>

definition lockFilePath :: "path \<Rightarrow> path" where
  "lockFilePath historyFilePath = historyFilePath @ lit ''.lock''"

definition tempPath :: "path \<Rightarrow> path" where
  "tempPath historyFilePath = historyFilePath @ lit ''.tmp''"

definition LOCK_TIMEOUT :: nat where
  "LOCK_TIMEOUT = 5000"

text \<open>
  \<^verbatim>\<open>new Date().toISOString().replace(/[:.]/g, '-')\<close>, on the ISO string \<open>stamp\<close> that
  the clock gives at the call.
\<close>

definition backup_timestamp :: "js_string \<Rightarrow> js_string" where
  "backup_timestamp stamp =
     map (\<lambda>c. if c = of_char CHR '':'' \<or> c = of_char CHR ''.'' then of_char CHR ''-'' else c) stamp"

definition backupPath :: "path \<Rightarrow> js_string \<Rightarrow> path" where
  "backupPath historyFilePath stamp =
     historyFilePath @ lit ''.backup.'' @ backup_timestamp stamp"

definition backupCorruptedFile ::
  "'c platform \<Rightarrow> path \<Rightarrow> js_string \<Rightarrow> 'c files \<Rightarrow> (error + unit) \<times> 'c files" where
  "backupCorruptedFile P historyFilePath stamp fs =
     (if \<not> existsSync fs historyFilePath then (Inr (), fs)
      else case copyFileSync P fs historyFilePath (backupPath historyFilePath stamp) of
             Inl e \<Rightarrow> (Inl BackupError, fs)
           | Inr fs1 \<Rightarrow>
               (case unlinkSync P fs1 historyFilePath of
                  Inl e \<Rightarrow> (Inl BackupError, fs1)
                | Inr fs2 \<Rightarrow> (Inr (), fs2)))"

text \<open>The \<^verbatim>\<open>catch\<close> block of \<^verbatim>\<open>atomicWrite\<close>: unlink the temporary file if it exists,
  ignoring a failure of the unlink.\<close>

definition cleanup_temp :: "'c platform \<Rightarrow> path \<Rightarrow> 'c files \<Rightarrow> 'c files" where
  "cleanup_temp P tmp fs =
     (if existsSync fs tmp
      then (case unlinkSync P fs tmp of Inl e \<Rightarrow> fs | Inr fs' \<Rightarrow> fs')
      else fs)"

definition atomicWrite ::
  "'c platform \<Rightarrow> path \<Rightarrow> js \<Rightarrow> 'c files \<Rightarrow> (error + unit) \<times> 'c files" where
  "atomicWrite P historyFilePath historyFile fs =
     (let tmp = tempPath historyFilePath;
          content = stringify P historyFile
      in case writeFileSync P fs tmp content of
           Inl e \<Rightarrow> (Inl WriteError, cleanup_temp P tmp fs)
         | Inr fs1 \<Rightarrow>
             (case renameSync P fs1 tmp historyFilePath of
                Inl e \<Rightarrow> (Inl WriteError, cleanup_temp P tmp fs1)
              | Inr fs2 \<Rightarrow> (Inr (), fs2)))"

definition initializeHistoryFile ::
  "'c platform \<Rightarrow> path \<Rightarrow> bool \<Rightarrow> js_string \<Rightarrow> 'c files \<Rightarrow> (error + unit) \<times> 'c files" where
  "initializeHistoryFile P historyFilePath force stamp fs =
     (if existsSync fs historyFilePath \<and> \<not> force then (Inl AlreadyExists, fs)
      else case (if existsSync fs historyFilePath \<and> force
                 then backupCorruptedFile P historyFilePath stamp fs
                 else (Inr (), fs)) of
             (Inl e, fs1) \<Rightarrow> (Inl e, fs1)
           | (Inr u, fs1) \<Rightarrow> atomicWrite P historyFilePath (history_doc []) fs1)"

text \<open>
  The polling loop of \<^verbatim>\<open>acquireLock\<close>. \<open>elapsed\<close> is \<^verbatim>\<open>Date.now() - startTime\<close>; every
  round waits 10 ms. Only this process acts on the files, so a lock file that is there
  stays there.
\<close>

function acquire_poll :: "'c files \<Rightarrow> path \<Rightarrow> nat \<Rightarrow> error + unit" where
  "acquire_poll fs lock elapsed =
     (if existsSync fs lock
      then (if elapsed > LOCK_TIMEOUT then Inl LockTimeout
            else acquire_poll fs lock (elapsed + 10))
      else Inr ())"
  by pat_completeness auto
termination
  by (relation "measure (\<lambda>(fs, lock, elapsed). LOCK_TIMEOUT + 11 - elapsed)") auto

declare acquire_poll.simps [simp del]

definition acquireLock ::
  "'c platform \<Rightarrow> path \<Rightarrow> 'c files \<Rightarrow> (error + unit) \<times> 'c files" where
  "acquireLock P historyFilePath fs =
     (case acquire_poll fs (lockFilePath historyFilePath) 0 of
        Inl e \<Rightarrow> (Inl e, fs)
      | Inr u \<Rightarrow>
          (case writeFileSync P fs (lockFilePath historyFilePath) (pid P) of
             Inl e \<Rightarrow> (Inl LockCreateError, fs)
           | Inr fs1 \<Rightarrow> (Inr (), fs1)))"

text \<open>\<^verbatim>\<open>releaseLock\<close> never throws: a failed unlink is logged only.\<close>

definition releaseLock :: "'c platform \<Rightarrow> path \<Rightarrow> 'c files \<Rightarrow> 'c files" where
  "releaseLock P historyFilePath fs =
     (if existsSync fs (lockFilePath historyFilePath)
      then (case unlinkSync P fs (lockFilePath historyFilePath) of
              Inl e \<Rightarrow> fs
            | Inr fs' \<Rightarrow> fs')
      else fs)"

text \<open>The first statement of the \<^verbatim>\<open>try\<close> block of \<^verbatim>\<open>appendCommand\<close>: the current
  document, or \<^verbatim>\<open>{ history: [] }\<close> when there is no file.\<close>

definition load_history :: "'c platform \<Rightarrow> path \<Rightarrow> 'c files \<Rightarrow> error + js" where
  "load_history P historyFilePath fs =
     (if existsSync fs historyFilePath
      then (case readFileSync P fs historyFilePath of
              Inl e \<Rightarrow> Inl e
            | Inr content \<Rightarrow>
                (case parse P content of None \<Rightarrow> Inl SyntaxError | Some v \<Rightarrow> Inr v))
      else Inr (history_doc []))"

text \<open>The \<^verbatim>\<open>try\<close> block of \<^verbatim>\<open>appendCommand\<close>.\<close>

definition append_locked ::
  "'c platform \<Rightarrow> path \<Rightarrow> js \<Rightarrow> 'c files \<Rightarrow> (error + unit) \<times> 'c files" where
  "append_locked P historyFilePath record fs =
     (case load_history P historyFilePath fs of
        Inl e \<Rightarrow> (Inl e, fs)
      | Inr historyFile \<Rightarrow>
          (case push_history historyFile record of
             Inl e \<Rightarrow> (Inl e, fs)
           | Inr historyFile' \<Rightarrow> atomicWrite P historyFilePath historyFile' fs))"

definition appendCommand ::
  "'c platform \<Rightarrow> path \<Rightarrow> js \<Rightarrow> 'c files \<Rightarrow> (error + unit) \<times> 'c files" where
  "appendCommand P historyFilePath record fs =
     (case acquireLock P historyFilePath fs of
        (Inl e, fs1) \<Rightarrow> (Inl e, fs1)
      | (Inr u, fs1) \<Rightarrow>
          (case append_locked P historyFilePath record fs1 of
             (r, fs2) \<Rightarrow> (r, releaseLock P historyFilePath fs2)))"

text \<open>
  \<^verbatim>\<open>readHistory(limit?)\<close>; \<open>None\<close> is an absent limit. The condition
  \<^verbatim>\<open>limit && limit > 0\<close> holds for the positive limits only. Every exception of the
  \<^verbatim>\<open>try\<close> block is rethrown as the read error. The files are not changed.
\<close>

definition readHistory :: "'c platform \<Rightarrow> path \<Rightarrow> int option \<Rightarrow> 'c files \<Rightarrow> error + js" where
  "readHistory P historyFilePath limit fs =
     (if \<not> existsSync fs historyFilePath then Inr (JArr [])
      else case readFileSync P fs historyFilePath of
             Inl e \<Rightarrow> Inl ReadError
           | Inr content \<Rightarrow>
               (case parse P content of
                  None \<Rightarrow> Inl ReadError
                | Some historyFile \<Rightarrow>
                    (case get_history historyFile of
                       Inl e \<Rightarrow> Inl ReadError
                     | Inr h \<Rightarrow>
                         (case limit of
                            None \<Rightarrow> Inr h
                          | Some l \<Rightarrow>
                              if l \<noteq> 0 \<and> l > 0
                              then (case slice_history h (- l) of
                                      Inl e \<Rightarrow> Inl ReadError
                                    | Inr r \<Rightarrow> Inr r)
                              else Inr h))))"

section \<open>Records\<close>

text \<open>
  The interface \<^verbatim>\<open>CommandRecord\<close>. The optional field \<^verbatim>\<open>note\<close> is \<open>note_text\<close>; an
  absent note is \<open>None\<close>.
\<close>

record CommandRecord =
  timestamp :: js_string
  user :: js_string
  command :: js_string
  exit_code :: int
  cwd :: js_string
  note_text :: "js_string option"

text \<open>A \<^verbatim>\<open>CommandRecord\<close> as the object it is at run time.\<close>

definition record_js :: "CommandRecord \<Rightarrow> js" where
  "record_js r =
     JObj ([(lit ''timestamp'', JStr (timestamp r)),
            (lit ''user'', JStr (user r)),
            (lit ''command'', JStr (command r)),
            (lit ''exit_code'', JNum (exit_code r)),
            (lit ''cwd'', JStr (cwd r))]
           @ (case note_text r of None \<Rightarrow> [] | Some n \<Rightarrow> [(lit ''note'', JStr n)]))"

text \<open>Appending records one after the other, stopping at the first exception.\<close>

fun append_all ::
  "'c platform \<Rightarrow> path \<Rightarrow> js list \<Rightarrow> 'c files \<Rightarrow> (error + unit) \<times> 'c files" where
  "append_all P historyFilePath [] fs = (Inr (), fs)"
| "append_all P historyFilePath (r # rs) fs =
     (case appendCommand P historyFilePath r fs of
        (Inl e, fs') \<Rightarrow> (Inl e, fs')
      | (Inr u, fs') \<Rightarrow> append_all P historyFilePath rs fs')"

section \<open>HistoryManager\<close>

subsection \<open>Strings\<close>

text \<open>
  \<^verbatim>\<open>String.prototype.trim\<close> removes white space and line terminators from both ends:
  TAB, LF, VT, FF, CR, SP, NBSP, U+1680, U+2000 to U+200A, U+2028, U+2029, U+202F,
  U+205F, U+3000 and U+FEFF.
\<close>

definition is_space :: "code_unit \<Rightarrow> bool" where
  "is_space c =
     ((0x0009 \<le> c \<and> c \<le> 0x000D) \<or> c = 0x0020 \<or> c = 0x00A0 \<or> c = 0x1680
      \<or> (0x2000 \<le> c \<and> c \<le> 0x200A) \<or> c = 0x2028 \<or> c = 0x2029 \<or> c = 0x202F
      \<or> c = 0x205F \<or> c = 0x3000 \<or> c = 0xFEFF)"

definition trim :: "js_string \<Rightarrow> js_string" where
  "trim s = rev (dropWhile is_space (rev (dropWhile is_space s)))"

text \<open>\<^verbatim>\<open>s.startsWith(t)\<close> and \<^verbatim>\<open>s.includes(t)\<close>.\<close>

fun starts_with :: "'a list \<Rightarrow> 'a list \<Rightarrow> bool" where
  "starts_with s [] = True"
| "starts_with [] (y # ys) = False"
| "starts_with (x # xs) (y # ys) = (x = y \<and> starts_with xs ys)"

fun js_includes :: "'a list \<Rightarrow> 'a list \<Rightarrow> bool" where
  "js_includes [] t = (t = [])"
| "js_includes (x # xs) t = (starts_with (x # xs) t \<or> js_includes xs t)"

text \<open>\<^verbatim>\<open>s.padEnd(n)\<close>, \<^verbatim>\<open>s.repeat(n)\<close> and \<^verbatim>\<open>parts.join(sep)\<close>.\<close>

definition padEnd :: "js_string \<Rightarrow> nat \<Rightarrow> js_string" where
  "padEnd s n = s @ replicate (n - length s) (of_char CHR '' '')"

definition repeat :: "js_string \<Rightarrow> nat \<Rightarrow> js_string" where
  "repeat s n = concat (replicate n s)"

fun join :: "js_string \<Rightarrow> js_string list \<Rightarrow> js_string" where
  "join sep [] = []"
| "join sep [x] = x"
| "join sep (x # y # ys) = x @ sep @ join sep (y # ys)"

text \<open>\<^verbatim>\<open>Number.prototype.toString\<close> of an integer: decimal digits, a minus sign first
  for a negative one.\<close>

fun digits :: "nat \<Rightarrow> js_string" where
  "digits n =
     (if n < 10 then [of_nat (48 + n)] else digits (n div 10) @ [of_nat (48 + n mod 10)])"

declare digits.simps [simp del]

definition number_toString :: "int \<Rightarrow> js_string" where
  "number_toString n =
     (if n < 0 then of_char CHR ''-'' # digits (nat (- n)) else digits (nat n))"

text \<open>\<^verbatim>\<open>Math.max(...xs, n)\<close>.\<close>

definition max_of :: "nat list \<Rightarrow> nat \<Rightarrow> nat" where
  "max_of xs n = foldr max xs n"

subsection \<open>Filtering and formatting\<close>

text \<open>
  \<^verbatim>\<open>filterCommands\<close>. Its first argument is \<^verbatim>\<open>String.prototype.toLowerCase\<close>: the case
  pairs are those of Unicode, which ECMAScript takes from the Unicode tables; they are a
  parameter here.
\<close>

definition filterCommands ::
  "(js_string \<Rightarrow> js_string) \<Rightarrow> CommandRecord list \<Rightarrow> js_string \<Rightarrow> CommandRecord list" where
  "filterCommands toLowerCase records flt =
     (if flt = [] \<or> length (trim flt) = 0 then records
      else let lowerFilter = toLowerCase flt
           in filter (\<lambda>r. js_includes (toLowerCase (command r)) lowerFilter) records)"

definition formatForDisplay :: "CommandRecord list \<Rightarrow> js_string" where
  "formatForDisplay records =
     (if length records = 0 then lit ''No command history found.''
      else
        let maxTimestampLen = max_of (map (\<lambda>r. length (timestamp r)) records) (length (lit ''Timestamp''));
            maxCommandLen = max_of (map (\<lambda>r. length (command r)) records) (length (lit ''Command''));
            maxExitCodeLen =
              max_of (map (\<lambda>r. length (number_toString (exit_code r))) records) (length (lit ''Exit Code''));
            maxCwdLen = max_of (map (\<lambda>r. length (cwd r)) records) (length (lit ''Directory''));
            header = join (lit '' | '')
              [padEnd (lit ''Timestamp'') maxTimestampLen,
               padEnd (lit ''Command'') maxCommandLen,
               padEnd (lit ''Exit Code'') maxExitCodeLen,
               padEnd (lit ''Directory'') maxCwdLen,
               lit ''User''];
            separator = join (lit ''-+-'')
              [repeat (lit ''-'') maxTimestampLen,
               repeat (lit ''-'') maxCommandLen,
               repeat (lit ''-'') maxExitCodeLen,
               repeat (lit ''-'') maxCwdLen,
               repeat (lit ''-'') 4];
            rows = map (\<lambda>r. join (lit '' | '')
              [padEnd (timestamp r) maxTimestampLen,
               padEnd (command r) maxCommandLen,
               padEnd (number_toString (exit_code r)) maxExitCodeLen,
               padEnd (cwd r) maxCwdLen,
               user r]) records
        in join [0x0A] ([header, separator] @ rows))"

section \<open>SessionManager: capturing a command\<close>

text \<open>
  The regular expressions the source uses: a sequence of items, each a digit
  \<^verbatim>\<open>\d\<close>, a literal character, or an optional group \<^verbatim>\<open>(...)?\<close>. \<open>rx_test\<close> is
  \<^verbatim>\<open>/^...$/.test(s)\<close>: the whole string matches the sequence.
\<close>

datatype rx = Digit | Chr code_unit | Opt "rx list"

definition is_digit :: "code_unit \<Rightarrow> bool" where
  "is_digit c = (0x30 \<le> c \<and> c \<le> 0x39)"

function rx_test :: "rx list \<Rightarrow> js_string \<Rightarrow> bool" where
  "rx_test [] s = (s = [])"
| "rx_test (Digit # rs) s = (case s of [] \<Rightarrow> False | c # cs \<Rightarrow> is_digit c \<and> rx_test rs cs)"
| "rx_test (Chr a # rs) s = (case s of [] \<Rightarrow> False | c # cs \<Rightarrow> c = a \<and> rx_test rs cs)"
| "rx_test (Opt g # rs) s = (rx_test (g @ rs) s \<or> rx_test rs s)"
  by pat_completeness auto
termination
  by (relation "measure (\<lambda>(rs, s). size_list size rs)") auto

text \<open>\<^verbatim>\<open>/^\d{4}-\d{2}-\d{2}T\d{2}:\d{2}:\d{2}(\.\d{3})?Z?$/\<close>\<close>

definition iso8601Regex :: "rx list" where
  "iso8601Regex =
     replicate 4 Digit @ [Chr (of_char CHR ''-'')] @ replicate 2 Digit @ [Chr (of_char CHR ''-'')]
     @ replicate 2 Digit @ [Chr (of_char CHR ''T'')] @ replicate 2 Digit @ [Chr (of_char CHR '':'')]
     @ replicate 2 Digit @ [Chr (of_char CHR '':'')] @ replicate 2 Digit
     @ [Opt (Chr (of_char CHR ''.'') # replicate 3 Digit), Opt [Chr (of_char CHR ''Z'')]]"

definition isValidISO8601 :: "js_string \<Rightarrow> bool" where
  "isValidISO8601 ts = rx_test iso8601Regex ts"

text \<open>The loop of \<^verbatim>\<open>validateCommandRecord\<close> over the required fields.\<close>

fun check_required :: "js \<Rightarrow> js_string list \<Rightarrow> error + unit" where
  "check_required record [] = Inr ()"
| "check_required record (field # rest) =
     (case get_prop record field of
        Inl e \<Rightarrow> Inl e
      | Inr JUndefined \<Rightarrow> Inl (MissingField field)
      | Inr JNull \<Rightarrow> Inl (MissingField field)
      | Inr v \<Rightarrow> check_required record rest)"

definition requiredFields :: "js_string list" where
  "requiredFields =
     [lit ''timestamp'', lit ''user'', lit ''command'', lit ''exit_code'', lit ''cwd'']"

text \<open>
  The conversion of a value to a string, as \<^verbatim>\<open>RegExp.prototype.test\<close> does it with its
  argument: a string is itself; an array is its elements converted and joined by commas,
  \<^verbatim>\<open>null\<close> and \<^verbatim>\<open>undefined\<close> elements being empty; a plain object is
  \<^verbatim>\<open>[object Object]\<close>.
\<close>

fun ToString :: "js \<Rightarrow> js_string"
  and element_strings :: "js list \<Rightarrow> js_string list" where
  "ToString JUndefined = lit ''undefined''"
| "ToString JNull = lit ''null''"
| "ToString (JBool b) = (if b then lit ''true'' else lit ''false'')"
| "ToString (JNum n) = number_toString n"
| "ToString (JNonFinite x) =
     (case x of NaN \<Rightarrow> lit ''NaN'' | PosInfinity \<Rightarrow> lit ''Infinity''
      | NegInfinity \<Rightarrow> lit ''-Infinity'')"
| "ToString (JStr s) = s"
| "ToString (JArr xs) = join (lit '','') (element_strings xs)"
| "ToString (JObj kvs) = lit ''[object Object]''"
| "element_strings [] = []"
| "element_strings (x # xs) =
     (if x = JUndefined \<or> x = JNull then [] else ToString x) # element_strings xs"

text \<open>\<^verbatim>\<open>typeof v === 'number'\<close>: true of every number, also of \<^verbatim>\<open>NaN\<close> and the
  infinities.\<close>

fun typeof_number :: "js \<Rightarrow> bool" where
  "typeof_number (JNum n) = True"
| "typeof_number (JNonFinite x) = True"
| "typeof_number v = False"

text \<open>\<^verbatim>\<open>validateCommandRecord\<close>: the required fields, then the timestamp, then the
  exit code.\<close>

definition validateCommandRecord :: "js \<Rightarrow> error + unit" where
  "validateCommandRecord record =
     (case check_required record requiredFields of
        Inl e \<Rightarrow> Inl e
      | Inr u \<Rightarrow>
          (case get_prop record (lit ''timestamp'') of
             Inl e \<Rightarrow> Inl e
           | Inr ts \<Rightarrow>
               if \<not> isValidISO8601 (ToString ts) then Inl InvalidTimestamp
               else (case get_prop record (lit ''exit_code'') of
                       Inl e \<Rightarrow> Inl e
                     | Inr c \<Rightarrow> if \<not> typeof_number c then Inl ExitCodeNotNumber else Inr ())))"

text \<open>
  \<^verbatim>\<open>captureCommand(command, exitCode, cwd)\<close>. \<open>now\<close> is \<^verbatim>\<open>dayjs().toISOString()\<close> and
  \<open>username\<close> is \<^verbatim>\<open>os.userInfo().username\<close> at the call. The three arguments are any
  values: the types of the signature are not checked at run time.
\<close>

definition capture_record :: "js_string \<Rightarrow> js_string \<Rightarrow> js \<Rightarrow> js \<Rightarrow> js \<Rightarrow> js" where
  "capture_record now username cmd exitCode dir =
     JObj [(lit ''timestamp'', JStr now),
           (lit ''user'', JStr username),
           (lit ''command'', cmd),
           (lit ''exit_code'', exitCode),
           (lit ''cwd'', dir)]"

definition captureCommand ::
  "'c platform \<Rightarrow> path \<Rightarrow> js_string \<Rightarrow> js_string \<Rightarrow> js \<Rightarrow> js \<Rightarrow> js \<Rightarrow> 'c files
     \<Rightarrow> (error + js) \<times> 'c files" where
  "captureCommand P historyFilePath now username cmd exitCode dir fs =
     (let record = capture_record now username cmd exitCode dir
      in case validateCommandRecord record of
           Inl e \<Rightarrow> (Inl e, fs)
         | Inr u \<Rightarrow>
             (case appendCommand P historyFilePath record fs of
                (Inl e, fs') \<Rightarrow> (Inl e, fs')
              | (Inr u', fs') \<Rightarrow> (Inr record, fs')))"

section \<open>Sample platforms and data\<close>

text \<open>
  A platform on which no call of \<^verbatim>\<open>fs\<close> fails and a file holds either the JSON text of
  a value (\<open>Some v\<close>, the value that \<^verbatim>\<open>JSON.parse\<close> returns for it) or bytes that
  \<^verbatim>\<open>JSON.parse\<close> rejects (\<open>None\<close>).
\<close>

definition plain_platform :: "js option platform" where
  "plain_platform =
     \<lparr> stringify = (\<lambda>v. Some (jsonify v)), parse = (\<lambda>c. c), faulty = (\<lambda>op. False),
       pid = Some (JNum 4711) \<rparr>"

text \<open>Sample data: the default store path and records of a session.\<close>

definition store_path :: path where
  "store_path = lit ''jyugemu.json''"

definition sample_record :: "string \<Rightarrow> CommandRecord" where
  "sample_record cmd =
     \<lparr> timestamp = lit ''2025-12-25T01:03:14.221Z'', user = lit ''alice'', command = lit cmd,
       exit_code = 0, cwd = lit ''/home/alice/proj'', note_text = None \<rparr>"

definition sample_history :: "js list" where
  "sample_history =
     map record_js [sample_record ''npm install'', sample_record ''git status'',
                    sample_record ''npm run build'']"

definition sample_stamp :: js_string where
  "sample_stamp = lit ''2025-12-25T01:03:14.221Z''"


text \<open>A record whose command is the single letter U+017F (long s).\<close>

definition long_s_record :: CommandRecord where
  "long_s_record = (sample_record '''') \<lparr> command := [0x017F] \<rparr>"

section \<open>The claims in the words of the specification\<close>

text \<open>
  The definitions of this section are not translations of the source: they say what
  the specification claims, so that the code can be compared with it.
\<close>


text \<open>The width of a column: the maximum of the length of its header label and of the
  lengths of its values.\<close>

definition column_width :: "js_string \<Rightarrow> js_string list \<Rightarrow> nat" where
  "column_width label cells = Max (set (map length (label # cells)))"

definition record_cells :: "CommandRecord \<Rightarrow> js_string list" where
  "record_cells r = [timestamp r, command r, number_toString (exit_code r), cwd r, user r]"

definition column_labels :: "js_string list" where
  "column_labels = [lit ''Timestamp'', lit ''Command'', lit ''Exit Code'', lit ''Directory'', lit ''User'']"

text \<open>The table as the specification describes it: all five columns are padded to their
  width, and the separator row has as many dashes as each column is wide.\<close>

definition formatTable_claimed :: "CommandRecord list \<Rightarrow> js_string" where
  "formatTable_claimed records =
     (let widths = map (\<lambda>i. column_width (column_labels ! i) (map (\<lambda>r. record_cells r ! i) records)) [0..<5];
          header = join (lit '' | '') (map2 padEnd column_labels widths);
          separator = join (lit ''-+-'') (map (repeat (lit ''-'')) widths);
          rows = map (\<lambda>r. join (lit '' | '') (map2 padEnd (record_cells r) widths)) records
      in join [0x0A] (header # separator # rows))"

text \<open>
  The shape \<^verbatim>\<open>YYYY-MM-DDTHH:mm:ss[.sss]Z?\<close> of a timestamp: digits in groups of four and
  two with their separators, then an optional fraction of three digits and an optional
  \<^verbatim>\<open>Z\<close>.
\<close>

definition digits_n :: "nat \<Rightarrow> js_string \<Rightarrow> bool" where
  "digits_n n s = (length s = n \<and> list_all is_digit s)"

definition iso_timestamp :: "js_string \<Rightarrow> bool" where
  "iso_timestamp ts =
     (\<exists>Y Mo D h mi s frac z.
        ts = Y @ lit ''-'' @ Mo @ lit ''-'' @ D @ lit ''T'' @ h @ lit '':'' @ mi @ lit '':'' @ s @ frac @ z
        \<and> digits_n 4 Y \<and> digits_n 2 Mo \<and> digits_n 2 D \<and> digits_n 2 h \<and> digits_n 2 mi \<and> digits_n 2 s
        \<and> (frac = [] \<or> (\<exists>f. frac = lit ''.'' @ f \<and> digits_n 3 f))
        \<and> (z = [] \<or> z = lit ''Z''))"

text \<open>
  A record as the specification wants it persisted: the five required fields are present
  and neither \<^verbatim>\<open>null\<close> nor \<^verbatim>\<open>undefined\<close>, the exit code is a number and the timestamp
  is a string of the ISO shape.
\<close>

definition field_present :: "js \<Rightarrow> js_string \<Rightarrow> bool" where
  "field_present record k =
     (case get_prop record k of
        Inl e \<Rightarrow> False
      | Inr JUndefined \<Rightarrow> False
      | Inr JNull \<Rightarrow> False
      | Inr v \<Rightarrow> True)"

definition well_formed_record :: "js \<Rightarrow> bool" where
  "well_formed_record record =
     ((\<forall>k \<in> set [lit ''timestamp'', lit ''user'', lit ''command'', lit ''exit_code'', lit ''cwd''].
          field_present record k)
      \<and> (case get_prop record (lit ''exit_code'') of Inr (JNum n) \<Rightarrow> True | _ \<Rightarrow> False)
      \<and> (case get_prop record (lit ''timestamp'') of Inr (JStr ts) \<Rightarrow> iso_timestamp ts | _ \<Rightarrow> False))"

section \<open>Facts about the platform and the lock\<close>

lemmas fs_defs = existsSync_def readFileSync_def writeFileSync_def renameSync_def
  unlinkSync_def copyFileSync_def

lemma lock_neq_store [simp]: "lockFilePath p \<noteq> p" "p \<noteq> lockFilePath p"
  by (simp_all add: lockFilePath_def lit_def)

lemma temp_neq_store [simp]: "tempPath p \<noteq> p" "p \<noteq> tempPath p"
  by (simp_all add: tempPath_def lit_def)

lemma lock_neq_temp [simp]: "lockFilePath p \<noteq> tempPath p" "tempPath p \<noteq> lockFilePath p"
  by (simp_all add: lockFilePath_def tempPath_def lit_def)

lemma backup_neq_store [simp]: "backupPath p st \<noteq> p" "p \<noteq> backupPath p st"
  by (simp_all add: backupPath_def lit_def)

lemma backup_neq_temp [simp]: "backupPath p st \<noteq> tempPath p" "tempPath p \<noteq> backupPath p st"
  by (simp_all add: backupPath_def tempPath_def lit_def)

lemma backup_neq_lock [simp]:
  "backupPath p st \<noteq> lockFilePath p" "lockFilePath p \<noteq> backupPath p st"
  by (simp_all add: backupPath_def lockFilePath_def lit_def)

lemma acquire_poll_free: "\<not> existsSync fs lock \<Longrightarrow> acquire_poll fs lock e = Inr ()"
  by (simp add: acquire_poll.simps)

text \<open>A lock file that is there when the polling starts is there at every round, so
  the polling ends in the timeout.\<close>

lemma acquire_poll_held: "existsSync fs lock \<Longrightarrow> acquire_poll fs lock e = Inl LockTimeout"
proof (induction fs lock e rule: acquire_poll.induct)
  case (1 fs lock elapsed)
  show ?case
  proof (cases "elapsed > LOCK_TIMEOUT")
    case True
    with "1.prems" show ?thesis by (simp add: acquire_poll.simps)
  next
    case False
    with "1.prems" "1.IH" show ?thesis
      by (subst acquire_poll.simps) simp
  qed
qed

lemma acquireLock_eq:
  "acquireLock P p fs =
     (if existsSync fs (lockFilePath p) then (Inl LockTimeout, fs)
      else if faulty P (Write (lockFilePath p)) then (Inl LockCreateError, fs)
      else (Inr (), fs(lockFilePath p \<mapsto> pid P)))"
  by (simp add: acquireLock_def acquire_poll_free acquire_poll_held writeFileSync_def)

lemma releaseLock_other: "q \<noteq> lockFilePath p \<Longrightarrow> releaseLock P p fs q = fs q"
  by (simp add: releaseLock_def fs_defs split: option.splits)

lemma releaseLock_released:
  "\<not> faulty P (Unlink (lockFilePath p)) \<Longrightarrow> releaseLock P p fs (lockFilePath p) = None"
  by (auto simp add: releaseLock_def fs_defs split: option.splits)

lemma get_prop_error: "get_prop v k = Inl e \<Longrightarrow> e = TypeError"
  by (cases v) auto

lemma jsonify_elements_records [simp]:
  "jsonify_elements (map record_js rs) = map record_js rs"
  by (induction rs) (simp_all add: record_js_def split: option.splits)

lemma jsonify_history_doc [simp]:
  "jsonify (history_doc (map record_js rs)) = history_doc (map record_js rs)"
  by (simp add: history_doc_def)

lemma jsonify_empty_doc [simp]: "jsonify (history_doc []) = history_doc []"
  by (simp add: history_doc_def)

lemma get_history_doc [simp]: "get_history (history_doc xs) = Inr (JArr xs)"
  by (simp add: get_history_def history_doc_def)

lemma push_history_doc [simp]: "push_history (history_doc xs) r = Inr (history_doc (xs @ [r]))"
  by (simp add: push_history_def get_history_def history_doc_def)


lemma cleanup_temp_other: "q \<noteq> tmp \<Longrightarrow> cleanup_temp P tmp fs q = fs q"
  by (simp add: cleanup_temp_def fs_defs split: option.splits)


text \<open>\<^verbatim>\<open>atomicWrite\<close> touches the temporary path and the store path only.\<close>

lemma atomicWrite_other:
  "q \<noteq> tempPath p \<Longrightarrow> q \<noteq> p \<Longrightarrow> snd (atomicWrite P p doc fs) q = fs q"
  by (simp add: atomicWrite_def Let_def fs_defs cleanup_temp_other split: sum.splits option.splits)


lemma atomicWrite_ok:
  "\<not> faulty P (Write (tempPath p)) \<Longrightarrow> \<not> faulty P (Rename (tempPath p) p) \<Longrightarrow>
   atomicWrite P p doc fs = (Inr (), (fs(tempPath p := None))(p \<mapsto> stringify P doc))"
  by (simp add: atomicWrite_def Let_def fs_defs)


lemma backup_eq:
  assumes "fs p = Some content"
  shows "backupCorruptedFile P p stamp fs =
     (if faulty P (Copy p (backupPath p stamp)) then (Inl BackupError, fs)
      else if faulty P (Unlink p) then (Inl BackupError, fs(backupPath p stamp \<mapsto> content))
      else (Inr (), (fs(backupPath p stamp \<mapsto> content))(p := None)))"
  using assms by (simp add: backupCorruptedFile_def fs_defs)

lemma initialize_force_eq:
  assumes "fs p = Some content"
  shows "initializeHistoryFile P p True stamp fs =
     (if faulty P (Copy p (backupPath p stamp)) then (Inl BackupError, fs)
      else if faulty P (Unlink p) then (Inl BackupError, fs(backupPath p stamp \<mapsto> content))
      else atomicWrite P p (history_doc []) ((fs(backupPath p stamp \<mapsto> content))(p := None)))"
  using assms by (simp add: initializeHistoryFile_def backup_eq existsSync_def)

section \<open>No-force protection\<close>

text \<open>
  C2. When the store file exists, \<^verbatim>\<open>initializeHistoryFile(false)\<close> throws the
  already-exists error and the files are exactly what they were: nothing is written,
  copied, renamed or deleted, whatever the platform does.
\<close>

theorem initialize_no_force_protects:
  "existsSync fs historyFilePath \<Longrightarrow>
   initializeHistoryFile P historyFilePath False stamp fs = (Inl AlreadyExists, fs)"
  by (simp add: initializeHistoryFile_def)

theorem initialize_no_force_protects_witness:
  "existsSync [store_path \<mapsto> Some (history_doc sample_history)] store_path \<and>
   initializeHistoryFile plain_platform store_path False sample_stamp
     [store_path \<mapsto> Some (history_doc sample_history)]
   = (Inl AlreadyExists, [store_path \<mapsto> Some (history_doc sample_history)])"
proof -
  have h: "existsSync [store_path \<mapsto> Some (history_doc sample_history)] store_path"
    by (simp add: existsSync_def)
  from initialize_no_force_protects [OF h] h show ?thesis by blast
qed

section \<open>Reading\<close>

text \<open>
  C10. On a store whose file decodes to a document with the history array \<open>xs\<close>,
  \<^verbatim>\<open>readHistory\<close> with an absent, zero or negative limit returns the whole of \<open>xs\<close>, in
  order: such a limit is no error and cuts nothing.
\<close>

theorem read_nonpositive_limit_returns_all:
  assumes "fs p = Some content"
    and "\<not> faulty P (Read p)"
    and "parse P content = Some doc"
    and "get_history doc = Inr (JArr xs)"
    and "limit = None \<or> (\<exists>l. limit = Some l \<and> l \<le> 0)"
  shows "readHistory P p limit fs = Inr (JArr xs)"
  using assms by (auto simp: readHistory_def existsSync_def readFileSync_def)

theorem read_nonpositive_limit_returns_all_witness:
  "readHistory plain_platform store_path None [store_path \<mapsto> Some (history_doc sample_history)]
     = Inr (JArr sample_history)
   \<and> readHistory plain_platform store_path (Some 0) [store_path \<mapsto> Some (history_doc sample_history)]
     = Inr (JArr sample_history)
   \<and> readHistory plain_platform store_path (Some (- 2)) [store_path \<mapsto> Some (history_doc sample_history)]
     = Inr (JArr sample_history)"
proof -
  let ?fs = "[store_path \<mapsto> Some (history_doc sample_history)]"
  have a: "?fs store_path = Some (Some (history_doc sample_history))" by simp
  have b: "\<not> faulty plain_platform (Read store_path)" by (simp add: plain_platform_def)
  have c: "parse plain_platform (Some (history_doc sample_history)) = Some (history_doc sample_history)"
    by (simp add: plain_platform_def)
  have d: "get_history (history_doc sample_history) = Inr (JArr sample_history)" by simp
  note whole = read_nonpositive_limit_returns_all [of ?fs store_path _ plain_platform, OF a b c d]
  have "readHistory plain_platform store_path None ?fs = Inr (JArr sample_history)"
    by (rule whole) simp
  moreover have "readHistory plain_platform store_path (Some 0) ?fs = Inr (JArr sample_history)"
    by (rule whole) simp
  moreover have "readHistory plain_platform store_path (Some (- 2)) ?fs = Inr (JArr sample_history)"
    by (rule whole) simp
  ultimately show ?thesis by blast
qed

lemma slice_from_last:
  assumes "0 < l" and "l < int (length xs)"
  shows "slice_from (- l) xs = drop (length xs - nat l) xs"
  using assms by (simp add: slice_from_def Let_def nat_diff_distrib max_def)

text \<open>
  C6. On a store whose file decodes to a document with the history array \<open>xs\<close> of
  \<open>N\<close> records, \<^verbatim>\<open>readHistory(L)\<close> with \<open>0 < L < N\<close> returns the last \<open>L\<close> elements of
  \<open>xs\<close> in their order: \<open>xs\<close> is some older records followed by the \<open>L\<close> returned ones.
\<close>

theorem read_limit_returns_last:
  assumes "fs p = Some content"
    and "\<not> faulty P (Read p)"
    and "parse P content = Some doc"
    and "get_history doc = Inr (JArr xs)"
    and "0 < l" and "l < int (length xs)"
  shows "\<exists>older recent. xs = older @ recent \<and> int (length recent) = l \<and>
           readHistory P p (Some l) fs = Inr (JArr recent)"
proof -
  let ?recent = "drop (length xs - nat l) xs"
  have "readHistory P p (Some l) fs = Inr (JArr ?recent)"
    using assms by (simp add: readHistory_def existsSync_def readFileSync_def slice_from_last)
  moreover have "xs = take (length xs - nat l) xs @ ?recent" by simp
  moreover have "int (length ?recent) = l" using assms by simp
  ultimately show ?thesis by blast
qed

theorem read_limit_returns_last_witness:
  "\<exists>older recent. sample_history = older @ recent \<and> int (length recent) = 2 \<and>
     readHistory plain_platform store_path (Some 2) [store_path \<mapsto> Some (history_doc sample_history)]
       = Inr (JArr recent)"
proof -
  let ?fs = "[store_path \<mapsto> Some (history_doc sample_history)]"
  have a: "?fs store_path = Some (Some (history_doc sample_history))" by simp
  have b: "\<not> faulty plain_platform (Read store_path)" by (simp add: plain_platform_def)
  have c: "parse plain_platform (Some (history_doc sample_history)) = Some (history_doc sample_history)"
    by (simp add: plain_platform_def)
  have d: "get_history (history_doc sample_history) = Inr (JArr sample_history)" by simp
  have e: "(0::int) < 2" by simp
  have f: "2 < int (length sample_history)" by (simp add: sample_history_def)
  from read_limit_returns_last [of ?fs store_path _ plain_platform, OF a b c d e f]
  show ?thesis .
qed

section \<open>Forced initialization\<close>

text \<open>
  C3, as the code has it. Let the store file exist with the content \<open>content\<close>, and
  call \<^verbatim>\<open>initializeHistoryFile(true)\<close>.
  \<^item> The copy comes before the deletion: at every outcome the prior content is at the
    store path or at the backup path, and when the copy fails nothing is deleted (the
    call throws the backup error and the files are what they were).
  \<^item> When the copy, the deletion, the write and the rename do not fail, the call
    succeeds, the store file is the serialized empty document \<^verbatim>\<open>{ history: [] }\<close>, and
    the backup path holds the prior content byte for byte (so its records). No path
    but the backup path is new.
  \<^item> The backup path is a new file, the only one, when there was no file at the backup
    path of the current timestamp. A file that was there is overwritten.
\<close>

theorem initialize_force_backs_up:
  assumes "fs p = Some content"
  shows "(snd (initializeHistoryFile P p True stamp fs) p = Some content
          \<or> snd (initializeHistoryFile P p True stamp fs) (backupPath p stamp) = Some content)
       \<and> (faulty P (Copy p (backupPath p stamp))
            \<longrightarrow> initializeHistoryFile P p True stamp fs = (Inl BackupError, fs))
       \<and> (\<not> faulty P (Copy p (backupPath p stamp)) \<and> \<not> faulty P (Unlink p)
            \<and> \<not> faulty P (Write (tempPath p)) \<and> \<not> faulty P (Rename (tempPath p) p)
          \<longrightarrow> (\<exists>fs'. initializeHistoryFile P p True stamp fs = (Inr (), fs')
                 \<and> fs' p = Some (stringify P (history_doc []))
                 \<and> fs' (backupPath p stamp) = Some content
                 \<and> {q. existsSync fs' q \<and> \<not> existsSync fs q} \<subseteq> {backupPath p stamp}
                 \<and> (\<not> existsSync fs (backupPath p stamp)
                      \<longrightarrow> {q. existsSync fs' q \<and> \<not> existsSync fs q} = {backupPath p stamp})))"
proof (intro conjI impI)
  show "snd (initializeHistoryFile P p True stamp fs) p = Some content
        \<or> snd (initializeHistoryFile P p True stamp fs) (backupPath p stamp) = Some content"
    using assms by (simp add: initialize_force_eq atomicWrite_other)
next
  assume "faulty P (Copy p (backupPath p stamp))"
  then show "initializeHistoryFile P p True stamp fs = (Inl BackupError, fs)"
    using assms by (simp add: initialize_force_eq)
next
  assume ok: "\<not> faulty P (Copy p (backupPath p stamp)) \<and> \<not> faulty P (Unlink p)
            \<and> \<not> faulty P (Write (tempPath p)) \<and> \<not> faulty P (Rename (tempPath p) p)"
  define fs' where
    "fs' = (((fs(backupPath p stamp \<mapsto> content))(p := None))(tempPath p := None))
             (p \<mapsto> stringify P (history_doc []))"
  have run: "initializeHistoryFile P p True stamp fs = (Inr (), fs')"
    using ok assms by (simp add: initialize_force_eq atomicWrite_ok fs'_def)
  have store: "fs' p = Some (stringify P (history_doc []))"
    by (simp add: fs'_def)
  have backup: "fs' (backupPath p stamp) = Some content"
    by (simp add: fs'_def)
  have new: "{q. existsSync fs' q \<and> \<not> existsSync fs q} \<subseteq> {backupPath p stamp}"
    using assms by (auto simp: fs'_def existsSync_def split: if_splits)
  have fresh: "\<not> existsSync fs (backupPath p stamp)
      \<longrightarrow> {q. existsSync fs' q \<and> \<not> existsSync fs q} = {backupPath p stamp}"
    using new backup by (auto simp: existsSync_def)
  from run store backup new fresh
  show "\<exists>fs'. initializeHistoryFile P p True stamp fs = (Inr (), fs')
                 \<and> fs' p = Some (stringify P (history_doc []))
                 \<and> fs' (backupPath p stamp) = Some content
                 \<and> {q. existsSync fs' q \<and> \<not> existsSync fs q} \<subseteq> {backupPath p stamp}
                 \<and> (\<not> existsSync fs (backupPath p stamp)
                      \<longrightarrow> {q. existsSync fs' q \<and> \<not> existsSync fs q} = {backupPath p stamp})"
    by blast
qed

theorem initialize_force_backs_up_witness:
  "fst (initializeHistoryFile plain_platform store_path True sample_stamp
          [store_path \<mapsto> Some (history_doc sample_history)]) = Inr ()
   \<and> snd (initializeHistoryFile plain_platform store_path True sample_stamp
          [store_path \<mapsto> Some (history_doc sample_history)]) store_path
       = Some (Some (history_doc []))
   \<and> snd (initializeHistoryFile plain_platform store_path True sample_stamp
          [store_path \<mapsto> Some (history_doc sample_history)]) (backupPath store_path sample_stamp)
       = Some (Some (history_doc sample_history))
   \<and> {q. existsSync (snd (initializeHistoryFile plain_platform store_path True sample_stamp
                            [store_path \<mapsto> Some (history_doc sample_history)])) q
          \<and> \<not> existsSync [store_path \<mapsto> Some (history_doc sample_history)] q}
       = {backupPath store_path sample_stamp}"
proof -
  let ?fs = "[store_path \<mapsto> Some (history_doc sample_history)]"
  have a: "?fs store_path = Some (Some (history_doc sample_history))" by simp
  have b: "\<not> existsSync ?fs (backupPath store_path sample_stamp)"
    by (simp add: existsSync_def)
  have c: "\<not> faulty plain_platform op" for op
    by (simp add: plain_platform_def)
  have d: "stringify plain_platform (history_doc []) = Some (history_doc [])"
    by (simp add: plain_platform_def)
  from initialize_force_backs_up [of ?fs store_path _ plain_platform sample_stamp, OF a] b c d
  show ?thesis by auto
qed

text \<open>
  The claim as stated fails where a file is already at the backup path of the current
  timestamp (a forced initialization in the same millisecond as the one before, or a
  clock set back): the call succeeds and no new file appears in the directory.
\<close>

theorem initialize_force_no_new_backup_counterexample:
  "fst (initializeHistoryFile plain_platform store_path True sample_stamp
      [store_path \<mapsto> Some (history_doc sample_history),
       backupPath store_path sample_stamp \<mapsto> Some (history_doc [])]) = Inr ()
   \<and> {q. existsSync (snd (initializeHistoryFile plain_platform store_path True sample_stamp
            [store_path \<mapsto> Some (history_doc sample_history),
             backupPath store_path sample_stamp \<mapsto> Some (history_doc [])])) q
          \<and> \<not> existsSync [store_path \<mapsto> Some (history_doc sample_history),
                           backupPath store_path sample_stamp \<mapsto> Some (history_doc [])] q}
     = {}"
  by (auto simp add: initialize_force_eq atomicWrite_ok plain_platform_def existsSync_def
      split: if_splits)

section \<open>Appending\<close>





text \<open>The exception of \<^verbatim>\<open>appendCommand\<close> is never the wrapped error of
  \<^verbatim>\<open>readHistory\<close>.\<close>

lemma append_locked_never_ReadError: "fst (append_locked P p r fs) \<noteq> Inl ReadError"
proof (cases "load_history P p fs")
  case (Inl e)
  then have "e = FsError \<or> e = SyntaxError"
    by (auto simp: load_history_def readFileSync_def split: if_splits option.splits sum.splits)
  with Inl show ?thesis by (auto simp: append_locked_def)
next
  case (Inr v)
  show ?thesis
  proof (cases "push_history v r")
    case (Inl e)
    then have "e = TypeError"
      by (auto simp: push_history_def get_history_def split: sum.splits js.splits dest: get_prop_error)
    with Inl Inr show ?thesis by (simp add: append_locked_def)
  next
    case v': (Inr v')
    have "fst (atomicWrite P p v' fs) \<noteq> Inl ReadError"
      by (simp add: atomicWrite_def Let_def split: sum.splits)
    with Inr v' show ?thesis by (simp add: append_locked_def)
  qed
qed

lemma appendCommand_never_ReadError: "fst (appendCommand P p r fs) \<noteq> Inl ReadError"
  using append_locked_never_ReadError [of P p r "fs(lockFilePath p \<mapsto> pid P)"]
  by (auto simp add: appendCommand_def acquireLock_eq split: prod.splits)




text \<open>One failing deletion is enough for the lock file: on a platform where only the
  deletion of the lock file fails, the append succeeds and the lock file stays.\<close>

lemma append_unlink_fault_leaves_lock:
  "fst (appendCommand (plain_platform \<lparr> faulty := (\<lambda>op. op = Unlink (lockFilePath store_path)) \<rparr>)
      store_path (record_js (sample_record ''git status'')) [store_path \<mapsto> Some (history_doc [])])
     = Inr ()
   \<and> existsSync (snd (appendCommand
      (plain_platform \<lparr> faulty := (\<lambda>op. op = Unlink (lockFilePath store_path)) \<rparr>)
      store_path (record_js (sample_record ''git status'')) [store_path \<mapsto> Some (history_doc [])]))
      (lockFilePath store_path)"
  by (simp add: appendCommand_def acquireLock_eq append_locked_def load_history_def atomicWrite_def
      releaseLock_def fs_defs plain_platform_def Let_def)

text \<open>The other two conditions are needed as well. A lock file that is there (left by
  a process that died) is still there after the timeout; a temporary file that is there
  stays when the append throws before it writes.\<close>

lemma append_stale_lock_remains:
  "appendCommand plain_platform store_path (record_js (sample_record ''git status''))
      [lockFilePath store_path \<mapsto> Some (JNum 999)]
   = (Inl LockTimeout, [lockFilePath store_path \<mapsto> Some (JNum 999)])"
  by (simp add: appendCommand_def acquireLock_eq existsSync_def)

lemma append_stale_temp_remains:
  "appendCommand plain_platform store_path (record_js (sample_record ''git status''))
      [store_path \<mapsto> None, tempPath store_path \<mapsto> None]
   = (Inl SyntaxError, [store_path \<mapsto> None, tempPath store_path \<mapsto> None])"
  by (simp add: appendCommand_def acquireLock_eq append_locked_def load_history_def
      releaseLock_def fs_defs plain_platform_def)

section \<open>Round trip\<close>

lemma append_all_snoc_ok:
  assumes rt: "\<And>rs. parse P (stringify P (history_doc (map record_js rs)))
                     = Some (history_doc (map record_js rs))"
    and nf: "\<And>op. \<not> faulty P op"
  shows "fs p = Some (stringify P (history_doc (map record_js pre))) \<Longrightarrow>
         fs (lockFilePath p) = None \<Longrightarrow>
         \<exists>fs'. append_all P p (map record_js rs) fs = (Inr (), fs')
            \<and> fs' p = Some (stringify P (history_doc (map record_js (pre @ rs))))
            \<and> fs' (lockFilePath p) = None"
proof (induction rs arbitrary: fs pre)
  case Nil
  then show ?case by simp
next
  case (Cons r rs)
  define fs1 where "fs1 = fs(lockFilePath p \<mapsto> pid P)"
  define doc where "doc = history_doc (map record_js (pre @ [r]))"
  define fs2 where "fs2 = (fs1(tempPath p := None))(p \<mapsto> stringify P doc)"
  have acq: "acquireLock P p fs = (Inr (), fs1)"
    using Cons.prems nf by (simp add: acquireLock_eq fs1_def existsSync_def)
  have load: "load_history P p fs1 = Inr (history_doc (map record_js pre))"
    using Cons.prems nf rt by (simp add: load_history_def fs_defs fs1_def)
  have body: "append_locked P p (record_js r) fs1 = (Inr (), fs2)"
    using load nf by (simp add: append_locked_def atomicWrite_ok fs2_def doc_def)
  have one: "appendCommand P p (record_js r) fs = (Inr (), releaseLock P p fs2)"
    using acq body by (simp add: appendCommand_def)
  have store: "releaseLock P p fs2 p = Some (stringify P (history_doc (map record_js (pre @ [r]))))"
    by (simp add: releaseLock_other fs2_def doc_def)
  have lock: "releaseLock P p fs2 (lockFilePath p) = None"
    using nf by (simp add: releaseLock_released)
  from Cons.IH[of "releaseLock P p fs2" "pre @ [r]", OF store lock]
  show ?case using one by simp
qed

text \<open>
  C1. On a platform whose \<^verbatim>\<open>JSON.parse\<close> gives back the history documents that
  \<^verbatim>\<open>JSON.stringify\<close> wrote and whose file system does not fail, starting without a store
  file and without a lock file: the initialization succeeds, the appends of the records,
  in order, all succeed, and \<^verbatim>\<open>readHistory()\<close> then returns exactly these records in the
  same order. This holds for every number of records and every record.
\<close>

theorem append_then_read_round_trip:
  assumes rt: "\<And>rs. parse P (stringify P (history_doc (map record_js rs)))
                     = Some (history_doc (map record_js rs))"
    and nf: "\<And>op. \<not> faulty P op"
    and fresh: "\<not> existsSync fs p"
    and free: "\<not> existsSync fs (lockFilePath p)"
  shows "\<exists>fs1 fs2. initializeHistoryFile P p force stamp fs = (Inr (), fs1)
           \<and> append_all P p (map record_js records) fs1 = (Inr (), fs2)
           \<and> readHistory P p None fs2 = Inr (JArr (map record_js records))"
proof -
  define fs1 where "fs1 = (fs(tempPath p := None))(p \<mapsto> stringify P (history_doc []))"
  have init: "initializeHistoryFile P p force stamp fs = (Inr (), fs1)"
    using fresh nf by (simp add: initializeHistoryFile_def atomicWrite_ok fs1_def)
  have a: "fs1 p = Some (stringify P (history_doc (map record_js [])))"
    by (simp add: fs1_def)
  have b: "fs1 (lockFilePath p) = None"
    using free by (simp add: fs1_def existsSync_def)
  from append_all_snoc_ok[of P fs1 p "[]" records, OF rt nf a b]
  obtain fs2 where app: "append_all P p (map record_js records) fs1 = (Inr (), fs2)"
    and c: "fs2 p = Some (stringify P (history_doc (map record_js records)))"
    by auto
  have "readHistory P p None fs2 = Inr (JArr (map record_js records))"
    using c rt nf by (simp add: readHistory_def fs_defs)
  with init app show ?thesis by blast
qed

theorem append_then_read_round_trip_witness:
  "\<exists>fs1 fs2. initializeHistoryFile plain_platform store_path False sample_stamp Map.empty = (Inr (), fs1)
     \<and> append_all plain_platform store_path sample_history fs1 = (Inr (), fs2)
     \<and> readHistory plain_platform store_path None fs2 = Inr (JArr sample_history)"
proof -
  have rt: "parse plain_platform (stringify plain_platform (history_doc (map record_js rs)))
              = Some (history_doc (map record_js rs))" for rs
    by (simp add: plain_platform_def)
  have nf: "\<not> faulty plain_platform op" for op
    by (simp add: plain_platform_def)
  have fresh: "\<not> existsSync (Map.empty :: js option files) store_path"
    by (simp add: existsSync_def)
  have free: "\<not> existsSync (Map.empty :: js option files) (lockFilePath store_path)"
    by (simp add: existsSync_def)
  from append_then_read_round_trip [of plain_platform Map.empty store_path False sample_stamp,
      OF rt nf fresh free]
  show ?thesis unfolding sample_history_def .
qed

section \<open>Filtering\<close>

lemma starts_with_iff: "starts_with s t \<longleftrightarrow> (\<exists>post. s = t @ post)"
  by (induction s t rule: starts_with.induct) auto

lemma js_includes_iff: "js_includes s t \<longleftrightarrow> (\<exists>pre post. s = pre @ t @ post)"
proof (induction s)
  case Nil
  then show ?case by simp
next
  case (Cons x xs)
  show ?case
  proof
    assume "js_includes (x # xs) t"
    then consider "starts_with (x # xs) t" | "js_includes xs t" by auto
    then show "\<exists>pre post. x # xs = pre @ t @ post"
    proof cases
      case 1
      then obtain post where "x # xs = t @ post" by (auto simp: starts_with_iff)
      then have "x # xs = [] @ t @ post" by simp
      then show ?thesis by blast
    next
      case 2
      with Cons.IH obtain pre post where "xs = pre @ t @ post" by blast
      then have "x # xs = (x # pre) @ t @ post" by simp
      then show ?thesis by blast
    qed
  next
    assume "\<exists>pre post. x # xs = pre @ t @ post"
    then obtain pre post where eq: "x # xs = pre @ t @ post" by blast
    show "js_includes (x # xs) t"
    proof (cases pre)
      case Nil
      with eq have "starts_with (x # xs) t" by (auto simp: starts_with_iff)
      then show ?thesis by simp
    next
      case (Cons y ys)
      with eq have "xs = ys @ t @ post" by simp
      with Cons.IH have "js_includes xs t" by blast
      then show ?thesis by simp
    qed
  qed
qed

text \<open>Two filter strings with the same lower case, both blank or both not, select the
  same records.\<close>

lemma filterCommands_same_lower_case:
  assumes "toLowerCase a = toLowerCase b"
    and "(a = [] \<or> length (trim a) = 0) = (b = [] \<or> length (trim b) = 0)"
  shows "filterCommands toLowerCase records a = filterCommands toLowerCase records b"
  using assms by (simp add: filterCommands_def)

text \<open>
  C8. The code does not do what the claim says, and what its own documentation and its
  test \<^verbatim>\<open>Property 6c: Filter is Case-Insensitive\<close> say for any filter string. In
  ECMAScript the lower case of U+017F (long s) is U+017F itself, its upper case is
  \<^verbatim>\<open>S\<close>, and the lower case of \<^verbatim>\<open>S\<close> is \<^verbatim>\<open>s\<close>. With a case conversion that has these
  three values, a record whose command is that letter is returned for the needle U+017F
  and not for the upper case of the needle.
\<close>

theorem filter_not_case_insensitive:
  assumes "toLowerCase [0x017F] = [0x017F]"
    and "toUpperCase [0x017F] = [0x53]"
    and "toLowerCase [0x53] = [0x73]"
  shows "filterCommands toLowerCase [long_s_record] [0x017F] = [long_s_record]
       \<and> filterCommands toLowerCase [long_s_record] (toUpperCase [0x017F]) = []"
  using assms
  by (simp add: filterCommands_def long_s_record_def sample_record_def trim_def is_space_def)

theorem filter_not_case_insensitive_witness:
  "filterCommands (\<lambda>s. if s = [0x53] then [0x73] else s) [long_s_record] [0x017F]
     = [long_s_record]
   \<and> filterCommands (\<lambda>s. if s = [0x53] then [0x73] else s) [long_s_record]
       ((\<lambda>s. if s = [0x017F] then [0x53] else s) [0x017F])
     = []"
proof -
  have a: "(\<lambda>s. if s = [0x53] then [0x73] else s) [0x017F :: code_unit] = [0x017F]" by simp
  have b: "(\<lambda>s. if s = [0x017F] then [0x53] else s) [0x017F :: code_unit] = [0x53]" by simp
  have c: "(\<lambda>s. if s = [0x53] then [0x73] else s) [0x53 :: code_unit] = [0x73]" by simp
  from filter_not_case_insensitive
    [of "\<lambda>s. if s = [0x53] then [0x73] else s" "\<lambda>s. if s = [0x017F] then [0x53] else s", OF a b c]
  show ?thesis .
qed

section \<open>Formatting\<close>

lemma max_of_Max: "max_of xs n = Max (set (n # xs))"
proof (induction xs)
  case Nil
  then show ?case by (simp add: max_of_def)
next
  case (Cons x xs)
  have "set (n # x # xs) = insert x (set (n # xs))" by auto
  then have "Max (set (n # x # xs)) = max x (Max (set (n # xs)))"
    by (simp only: Max_insert [OF finite_set] ) simp
  with Cons show ?case by (simp add: max_of_def)
qed

lemma max_of_width: "max_of (map (\<lambda>r. length (f r)) records) (length label) = column_width label (map f records)"
  by (simp add: max_of_Max column_width_def comp_def)

lemma length_padEnd: "length s \<le> n \<Longrightarrow> length (padEnd s n) = n"
  by (simp add: padEnd_def)

lemma padEnd_shape: "padEnd s n = s @ replicate (n - length s) 0x20"
  by (simp add: padEnd_def)

lemma repeat_dash: "repeat (lit ''-'') n = replicate n 0x2D"
  by (induction n) (simp_all add: repeat_def lit_def)

lemma label_le_width: "length label \<le> column_width label cells"
  by (simp add: column_width_def)

lemma cell_le_width: "c \<in> set cells \<Longrightarrow> length c \<le> column_width label cells"
  by (simp add: column_width_def Max_ge_iff) 

lemma digits_small: "n < 10 \<Longrightarrow> digits n = [of_nat (48 + n)]"
  by (subst digits.simps) simp

lemma sample_exit_code: "number_toString 0 = [0x30]"
  by (simp add: number_toString_def digits_small)

text \<open>
  C7, as the code has it. For a non-empty record list, \<^verbatim>\<open>formatForDisplay\<close> gives the
  header row, the separator row and one row per record, in input order, joined by
  newlines, with the columns Timestamp, Command, Exit Code, Directory, User in this
  order. The width of each of the first four columns is the maximum of the length of its
  label and of its longest value; every cell of these columns, in the header and in the
  rows, is padded with spaces to exactly that width. The User column is not padded: its
  header cell is \<^verbatim>\<open>User\<close> and its cells are the user names as they are. Cells are
  joined by \<^verbatim>\<open> | \<close>. The separator row has as many dashes as each of the first four
  columns is wide and four dashes for the User column, joined by \<^verbatim>\<open>-+-\<close>.
\<close>

theorem formatForDisplay_table:
  assumes "records \<noteq> []"
  shows "let w1 = column_width (lit ''Timestamp'') (map timestamp records);
             w2 = column_width (lit ''Command'') (map command records);
             w3 = column_width (lit ''Exit Code'') (map (\<lambda>r. number_toString (exit_code r)) records);
             w4 = column_width (lit ''Directory'') (map cwd records)
         in formatForDisplay records =
              join [0x0A]
                (join (lit '' | '')
                   [padEnd (lit ''Timestamp'') w1, padEnd (lit ''Command'') w2,
                    padEnd (lit ''Exit Code'') w3, padEnd (lit ''Directory'') w4, lit ''User'']
                 # join (lit ''-+-'')
                   [replicate w1 0x2D, replicate w2 0x2D, replicate w3 0x2D, replicate w4 0x2D,
                    replicate 4 0x2D]
                 # map (\<lambda>r. join (lit '' | '')
                     [padEnd (timestamp r) w1, padEnd (command r) w2,
                      padEnd (number_toString (exit_code r)) w3, padEnd (cwd r) w4, user r]) records)
          \<and> length (padEnd (lit ''Timestamp'') w1) = w1 \<and> length (padEnd (lit ''Command'') w2) = w2
          \<and> length (padEnd (lit ''Exit Code'') w3) = w3 \<and> length (padEnd (lit ''Directory'') w4) = w4
          \<and> (\<forall>r \<in> set records.
                length (padEnd (timestamp r) w1) = w1 \<and> length (padEnd (command r) w2) = w2
              \<and> length (padEnd (number_toString (exit_code r)) w3) = w3
              \<and> length (padEnd (cwd r) w4) = w4)"
proof -
  define w1 where "w1 = column_width (lit ''Timestamp'') (map timestamp records)"
  define w2 where "w2 = column_width (lit ''Command'') (map command records)"
  define w3 where "w3 = column_width (lit ''Exit Code'') (map (\<lambda>r. number_toString (exit_code r)) records)"
  define w4 where "w4 = column_width (lit ''Directory'') (map cwd records)"
  have table: "formatForDisplay records =
           join [0x0A]
             (join (lit '' | '')
                [padEnd (lit ''Timestamp'') w1, padEnd (lit ''Command'') w2,
                 padEnd (lit ''Exit Code'') w3, padEnd (lit ''Directory'') w4, lit ''User'']
              # join (lit ''-+-'')
                [replicate w1 0x2D, replicate w2 0x2D, replicate w3 0x2D, replicate w4 0x2D,
                 replicate 4 0x2D]
              # map (\<lambda>r. join (lit '' | '')
                  [padEnd (timestamp r) w1, padEnd (command r) w2,
                   padEnd (number_toString (exit_code r)) w3, padEnd (cwd r) w4, user r]) records)"
    using assms unfolding formatForDisplay_def Let_def max_of_width repeat_dash w1_def w2_def w3_def w4_def
    by simp
  have labels: "length (padEnd (lit ''Timestamp'') w1) = w1 \<and> length (padEnd (lit ''Command'') w2) = w2
       \<and> length (padEnd (lit ''Exit Code'') w3) = w3 \<and> length (padEnd (lit ''Directory'') w4) = w4"
    unfolding w1_def w2_def w3_def w4_def
    by (intro conjI length_padEnd label_le_width)
  have cells: "\<forall>r \<in> set records.
           length (padEnd (timestamp r) w1) = w1 \<and> length (padEnd (command r) w2) = w2
         \<and> length (padEnd (number_toString (exit_code r)) w3) = w3 \<and> length (padEnd (cwd r) w4) = w4"
    unfolding w1_def w2_def w3_def w4_def
    by (intro ballI conjI length_padEnd cell_le_width) auto
  from table labels cells show ?thesis
    unfolding Let_def w1_def w2_def w3_def w4_def by blast
qed

theorem formatForDisplay_table_witness:
  "formatForDisplay [sample_record ''git status''] =
     join [0x0A]
       [lit ''Timestamp                | Command    | Exit Code | Directory        | User'',
        lit ''-------------------------+------------+-----------+------------------+-----'',
        lit ''2025-12-25T01:03:14.221Z | git status | 0         | /home/alice/proj | alice'']"
proof -
  have ne: "[sample_record ''git status''] \<noteq> []" by simp
  have w: "column_width (lit ''Timestamp'') (map timestamp [sample_record ''git status'']) = 24"
    "column_width (lit ''Command'') (map command [sample_record ''git status'']) = 10"
    "column_width (lit ''Exit Code'') (map (\<lambda>r. number_toString (exit_code r)) [sample_record ''git status'']) = 9"
    "column_width (lit ''Directory'') (map cwd [sample_record ''git status'']) = 16"
    by (simp_all add: column_width_def sample_record_def lit_def sample_exit_code)
  from formatForDisplay_table [OF ne]
  show ?thesis
    unfolding Let_def w
    by (simp add: sample_record_def padEnd_def lit_def sample_exit_code eval_nat_numeral)
qed

text \<open>
  The claim as stated fails for the fifth column: for a record of the user \<^verbatim>\<open>alice\<close>
  the claimed table has five dashes under User, the table of the code has four.
\<close>

theorem formatForDisplay_counterexample:
  "formatForDisplay [sample_record ''git status''] \<noteq> formatTable_claimed [sample_record ''git status'']"
  by (simp add: formatForDisplay_def formatTable_claimed_def column_width_def record_cells_def
      column_labels_def sample_record_def max_of_def padEnd_def repeat_def lit_def
      sample_exit_code Let_def upt_rec)


section \<open>Capturing\<close>

lemma rx_digits:
  "rx_test (replicate n Digit @ rs) s \<longleftrightarrow> (\<exists>d rest. s = d @ rest \<and> digits_n n d \<and> rx_test rs rest)"
proof (induction n arbitrary: s)
  case 0
  then show ?case by (simp add: digits_n_def)
next
  case (Suc n)
  show ?case
  proof
    assume "rx_test (replicate (Suc n) Digit @ rs) s"
    then obtain c cs where s: "s = c # cs" and c: "is_digit c" and r: "rx_test (replicate n Digit @ rs) cs"
      by (auto split: list.splits)
    from r Suc.IH obtain d rest where "cs = d @ rest" "digits_n n d" "rx_test rs rest" by blast
    with s c have "s = (c # d) @ rest \<and> digits_n (Suc n) (c # d) \<and> rx_test rs rest"
      by (simp add: digits_n_def)
    then show "\<exists>d rest. s = d @ rest \<and> digits_n (Suc n) d \<and> rx_test rs rest" by blast
  next
    assume "\<exists>d rest. s = d @ rest \<and> digits_n (Suc n) d \<and> rx_test rs rest"
    then obtain d rest where s: "s = d @ rest" and d: "digits_n (Suc n) d" and r: "rx_test rs rest" by blast
    from d obtain c d' where dd: "d = c # d'" "is_digit c" "digits_n n d'"
      by (cases d) (auto simp: digits_n_def)
    with r Suc.IH[of "d' @ rest"] have "rx_test (replicate n Digit @ rs) (d' @ rest)" by blast
    with s dd show "rx_test (replicate (Suc n) Digit @ rs) s" by simp
  qed
qed

lemma rx_chr: "rx_test ([Chr a] @ rs) s \<longleftrightarrow> (\<exists>rest. s = [a] @ rest \<and> rx_test rs rest)"
  by (cases s) auto

lemma rx_opt_chr: "rx_test [Opt [Chr b]] t \<longleftrightarrow> (t = [] \<or> t = [b])"
  by (cases t) (auto split: list.splits)

lemma rx_frac:
  "rx_test ([Chr a] @ replicate 3 Digit @ [Opt [Chr b]]) s \<longleftrightarrow>
     (\<exists>f t. s = [a] @ f @ t \<and> digits_n 3 f \<and> (t = [] \<or> t = [b]))"
  unfolding rx_chr rx_digits rx_opt_chr by auto

lemma rx_tail:
  "rx_test [Opt (Chr a # replicate 3 Digit), Opt [Chr b]] s \<longleftrightarrow>
     (\<exists>frac z. s = frac @ z \<and> (frac = [] \<or> (\<exists>f. frac = [a] @ f \<and> digits_n 3 f)) \<and> (z = [] \<or> z = [b]))"
    (is "?L \<longleftrightarrow> ?R")
proof -
  have step: "?L \<longleftrightarrow> rx_test ([Chr a] @ replicate 3 Digit @ [Opt [Chr b]]) s \<or> rx_test [Opt [Chr b]] s"
    by simp
  show ?thesis
  proof
    assume ?L
    with step consider "rx_test ([Chr a] @ replicate 3 Digit @ [Opt [Chr b]]) s" | "rx_test [Opt [Chr b]] s"
      by blast
    then show ?R
    proof cases
      case 1
      then obtain f t where "s = [a] @ f @ t" "digits_n 3 f" "t = [] \<or> t = [b]"
        unfolding rx_frac by blast
      then have "s = ([a] @ f) @ t \<and> (\<exists>f'. [a] @ f = [a] @ f' \<and> digits_n 3 f') \<and> (t = [] \<or> t = [b])"
        by simp
      then show ?thesis by blast
    next
      case 2
      then have "s = [] @ s \<and> (s = [] \<or> s = [b])" unfolding rx_opt_chr by simp
      then show ?thesis by blast
    qed
  next
    assume ?R
    then obtain frac z where s: "s = frac @ z"
      and frac: "frac = [] \<or> (\<exists>f. frac = [a] @ f \<and> digits_n 3 f)"
      and z: "z = [] \<or> z = [b]" by blast
    from frac show ?L
    proof
      assume "frac = []"
      with s z have "rx_test [Opt [Chr b]] s" unfolding rx_opt_chr by simp
      with step show ?L by blast
    next
      assume "\<exists>f. frac = [a] @ f \<and> digits_n 3 f"
      then obtain f where "frac = [a] @ f" "digits_n 3 f" by blast
      with s z have "\<exists>f t. s = [a] @ f @ t \<and> digits_n 3 f \<and> (t = [] \<or> t = [b])" by auto
      then have "rx_test ([Chr a] @ replicate 3 Digit @ [Opt [Chr b]]) s" unfolding rx_frac .
      with step show ?L by blast
    qed
  qed
qed


lemma isValidISO8601_nested:
  "isValidISO8601 ts \<longleftrightarrow>
     (\<exists>Y r1. ts = Y @ r1 \<and> digits_n 4 Y \<and> (\<exists>r2. r1 = lit ''-'' @ r2 \<and>
      (\<exists>Mo r3. r2 = Mo @ r3 \<and> digits_n 2 Mo \<and> (\<exists>r4. r3 = lit ''-'' @ r4 \<and>
      (\<exists>D r5. r4 = D @ r5 \<and> digits_n 2 D \<and> (\<exists>r6. r5 = lit ''T'' @ r6 \<and>
      (\<exists>h r7. r6 = h @ r7 \<and> digits_n 2 h \<and> (\<exists>r8. r7 = lit '':'' @ r8 \<and>
      (\<exists>mi r9. r8 = mi @ r9 \<and> digits_n 2 mi \<and> (\<exists>r10. r9 = lit '':'' @ r10 \<and>
      (\<exists>s r11. r10 = s @ r11 \<and> digits_n 2 s \<and>
      (\<exists>frac z. r11 = frac @ z \<and> (frac = [] \<or> (\<exists>f. frac = lit ''.'' @ f \<and> digits_n 3 f))
          \<and> (z = [] \<or> z = lit ''Z'')))))))))))))"
  unfolding isValidISO8601_def iso8601Regex_def rx_digits rx_chr rx_tail lit_def list.map
  by (rule refl)

lemma isValidISO8601_shape: "isValidISO8601 ts \<longleftrightarrow> iso_timestamp ts"
proof
  assume "isValidISO8601 ts"
  then obtain Y Mo D h mi s frac z r1 r2 r3 r4 r5 r6 r7 r8 r9 r10 r11 where
    "ts = Y @ r1" "r1 = lit ''-'' @ r2" "r2 = Mo @ r3" "r3 = lit ''-'' @ r4" "r4 = D @ r5"
    "r5 = lit ''T'' @ r6" "r6 = h @ r7" "r7 = lit '':'' @ r8" "r8 = mi @ r9" "r9 = lit '':'' @ r10"
    "r10 = s @ r11" "r11 = frac @ z"
    and d: "digits_n 4 Y" "digits_n 2 Mo" "digits_n 2 D" "digits_n 2 h" "digits_n 2 mi" "digits_n 2 s"
      "frac = [] \<or> (\<exists>f. frac = lit ''.'' @ f \<and> digits_n 3 f)" "z = [] \<or> z = lit ''Z''"
    unfolding isValidISO8601_nested by (elim exE conjE)
  then have "ts = Y @ lit ''-'' @ Mo @ lit ''-'' @ D @ lit ''T'' @ h @ lit '':'' @ mi @ lit '':'' @ s @ frac @ z"
    by simp
  with d show "iso_timestamp ts" unfolding iso_timestamp_def by blast
next
  assume "iso_timestamp ts"
  then obtain Y Mo D h mi s frac z where
    ts: "ts = Y @ lit ''-'' @ Mo @ lit ''-'' @ D @ lit ''T'' @ h @ lit '':'' @ mi @ lit '':'' @ s @ frac @ z"
    and d: "digits_n 4 Y" "digits_n 2 Mo" "digits_n 2 D" "digits_n 2 h" "digits_n 2 mi" "digits_n 2 s"
      "frac = [] \<or> (\<exists>f. frac = lit ''.'' @ f \<and> digits_n 3 f)" "z = [] \<or> z = lit ''Z''"
    unfolding iso_timestamp_def by (elim exE conjE)
  show "isValidISO8601 ts"
    unfolding isValidISO8601_nested
    apply (rule exI[of _ Y], rule exI, intro conjI, rule ts, rule d(1))
    apply (rule exI, intro conjI, rule refl)
    apply (rule exI[of _ Mo], rule exI, intro conjI, rule refl, rule d(2))
    apply (rule exI, intro conjI, rule refl)
    apply (rule exI[of _ D], rule exI, intro conjI, rule refl, rule d(3))
    apply (rule exI, intro conjI, rule refl)
    apply (rule exI[of _ h], rule exI, intro conjI, rule refl, rule d(4))
    apply (rule exI, intro conjI, rule refl)
    apply (rule exI[of _ mi], rule exI, intro conjI, rule refl, rule d(5))
    apply (rule exI, intro conjI, rule refl)
    apply (rule exI[of _ s], rule exI, intro conjI, rule refl, rule d(6))
    apply (rule exI[of _ frac], rule exI[of _ z], intro conjI, rule refl, rule d(7), rule d(8))
    done
qed

lemma capture_invalid_throws:
  "validateCommandRecord (capture_record now username cmd exitCode dir) = Inl e \<Longrightarrow>
   captureCommand P p now username cmd exitCode dir fs = (Inl e, fs)"
  by (simp add: captureCommand_def Let_def)

lemma validate_nonfinite_exit_code:
  "isValidISO8601 now \<Longrightarrow>
   validateCommandRecord (capture_record now username (JStr cmd) (JNonFinite x) (JStr dir)) = Inr ()"
  by (simp add: validateCommandRecord_def requiredFields_def capture_record_def lit_def)

lemma jsonify_capture_nonfinite:
  "jsonify (history_doc [capture_record now username (JStr cmd) (JNonFinite x) (JStr dir)])
     = history_doc [capture_record now username (JStr cmd) JNull (JStr dir)]"
  by (simp add: history_doc_def capture_record_def)

lemma null_exit_code_not_well_formed:
  "\<not> well_formed_record (capture_record now username (JStr cmd) JNull (JStr dir))"
  by (simp add: well_formed_record_def field_present_def capture_record_def lit_def)

text \<open>
  C9. The code does not keep what the claim says. \<^verbatim>\<open>validateCommandRecord\<close> checks the
  exit code with \<^verbatim>\<open>typeof\<close>, which is \<^verbatim>\<open>'number'\<close> also for \<^verbatim>\<open>NaN\<close> and the infinities,
  and \<^verbatim>\<open>JSON.stringify\<close> writes these as \<^verbatim>\<open>null\<close>. On a platform with the codec of JSON
  and without faults, starting without a store file and without a lock file:
  \<^verbatim>\<open>captureCommand\<close> with such an exit code returns its record, and the record that the
  store then holds has the exit code \<^verbatim>\<open>null\<close>, so it is not well formed.
\<close>

theorem capture_nonfinite_exit_code_persists_null:
  assumes codec: "\<And>v. parse P (stringify P v) = Some (jsonify v)"
    and nf: "\<And>op. \<not> faulty P op"
    and fresh: "\<not> existsSync fs p"
    and free: "\<not> existsSync fs (lockFilePath p)"
    and ts: "isValidISO8601 now"
  shows "\<exists>fs'. captureCommand P p now username (JStr cmd) (JNonFinite x) (JStr dir) fs
                = (Inr (capture_record now username (JStr cmd) (JNonFinite x) (JStr dir)), fs')
           \<and> readHistory P p None fs'
                = Inr (JArr [capture_record now username (JStr cmd) JNull (JStr dir)])
           \<and> \<not> well_formed_record (capture_record now username (JStr cmd) JNull (JStr dir))"
proof -
  define rcd where "rcd = capture_record now username (JStr cmd) (JNonFinite x) (JStr dir)"
  define fs1 where "fs1 = fs(lockFilePath p \<mapsto> pid P)"
  define fs2 where "fs2 = (fs1(tempPath p := None))(p \<mapsto> stringify P (history_doc [rcd]))"
  have valid: "validateCommandRecord rcd = Inr ()"
    unfolding rcd_def using ts by (rule validate_nonfinite_exit_code)
  have acq: "acquireLock P p fs = (Inr (), fs1)"
    using free nf by (simp add: acquireLock_eq fs1_def)
  have load: "load_history P p fs1 = Inr (history_doc [])"
    using fresh by (simp add: load_history_def existsSync_def fs1_def)
  have body: "append_locked P p rcd fs1 = (Inr (), fs2)"
    using load nf by (simp add: append_locked_def atomicWrite_ok fs2_def)
  have app: "appendCommand P p rcd fs = (Inr (), releaseLock P p fs2)"
    using acq body by (simp add: appendCommand_def)
  have run: "captureCommand P p now username (JStr cmd) (JNonFinite x) (JStr dir) fs
      = (Inr rcd, releaseLock P p fs2)"
    using valid app by (simp add: captureCommand_def Let_def rcd_def [symmetric])
  have "releaseLock P p fs2 p = Some (stringify P (history_doc [rcd]))"
    by (simp add: releaseLock_other fs2_def)
  then have "readHistory P p None (releaseLock P p fs2) = Inr (JArr [capture_record now username (JStr cmd) JNull (JStr dir)])"
    using nf codec jsonify_capture_nonfinite [of now username cmd x dir]
    by (simp add: readHistory_def fs_defs rcd_def)
  with run null_exit_code_not_well_formed [of now username cmd dir] show ?thesis
    unfolding rcd_def by blast
qed

lemma replicate_small:
  "replicate 2 x = [x, x]" "replicate 3 x = [x, x, x]" "replicate 4 x = [x, x, x, x]"
  by (simp_all add: eval_nat_numeral)

lemma sample_stamp_valid: "isValidISO8601 sample_stamp"
  by (simp add: isValidISO8601_def iso8601Regex_def sample_stamp_def lit_def is_digit_def replicate_small)

theorem capture_nonfinite_exit_code_persists_null_witness:
  "\<exists>fs'. captureCommand plain_platform store_path sample_stamp (lit ''alice'')
            (JStr (lit ''git status'')) (JNonFinite NaN) (JStr (lit ''/home/alice/proj'')) Map.empty
          = (Inr (capture_record sample_stamp (lit ''alice'') (JStr (lit ''git status''))
                    (JNonFinite NaN) (JStr (lit ''/home/alice/proj''))), fs')
     \<and> readHistory plain_platform store_path None fs'
          = Inr (JArr [capture_record sample_stamp (lit ''alice'') (JStr (lit ''git status''))
                    JNull (JStr (lit ''/home/alice/proj''))])
     \<and> \<not> well_formed_record (capture_record sample_stamp (lit ''alice'') (JStr (lit ''git status''))
                    JNull (JStr (lit ''/home/alice/proj'')))"
proof -
  have codec: "parse plain_platform (stringify plain_platform v) = Some (jsonify v)" for v
    by (simp add: plain_platform_def)
  have nf: "\<not> faulty plain_platform op" for op
    by (simp add: plain_platform_def)
  have fresh: "\<not> existsSync (Map.empty :: js option files) store_path"
    by (simp add: existsSync_def)
  have free: "\<not> existsSync (Map.empty :: js option files) (lockFilePath store_path)"
    by (simp add: existsSync_def)
  from capture_nonfinite_exit_code_persists_null
    [of plain_platform Map.empty store_path sample_stamp, OF codec nf fresh free sample_stamp_valid]
  show ?thesis .
qed


end
